theory Spec2Isabelle
  imports Main
begin

section \<open>Go values, errors and panics\<close>

text \<open>
  A value of Go's empty interface \<^verbatim>\<open>interface{}\<close>: the nil interface, a value of some
  dynamic type (the type parameter stands for all of them), or the
  \<^verbatim>\<open>*runtime.PanicNilError\<close> that the runtime itself creates.
\<close>

datatype 'a any = NilAny | Val 'a | PanicNilError

fun is_nil :: "'a any \<Rightarrow> bool" where
  "is_nil NilAny = True"
| "is_nil (Val x) = False"
| "is_nil PanicNilError = False"

text \<open>
  The result of running a Go function body once: it returns its results, or it panics
  with the argument that was passed to \<^verbatim>\<open>panic\<close>.
\<close>

datatype ('r, 'a) outcome = Return 'r | Panicked "'a any"

text \<open>
  \<^verbatim>\<open>pkgError\<close>: the error of pkg/errors embedded in a \<^verbatim>\<open>PanicError\<close>, with its message
  and the stack trace that \<^verbatim>\<open>StackTrace()\<close> returns (one descriptor per frame).
\<close>

type_synonym Frame = string
type_synonym StackTrace = "Frame list"

record pkgError =
  msg :: string
  StackTrace :: StackTrace

text \<open>
  \<^verbatim>\<open>type PanicError struct { pkgError; val interface{} }\<close>
\<close>

record 'a PanicError =
  pkgError :: pkgError
  val :: "'a any"

text \<open>\<^verbatim>\<open>func (p PanicError) Panic() interface{} { return p.val }\<close>\<close>

definition Panic :: "'a PanicError \<Rightarrow> 'a any" where
  "Panic p = val p"

text \<open>
  The dynamic value of a non-nil \<^verbatim>\<open>error\<close>: an error of the guarded code's own
  (\<open>Native\<close>), or a \<^verbatim>\<open>PanicError\<close>. A value of the interface type \<^verbatim>\<open>error\<close> is an
  \<open>error option\<close>, with \<open>None\<close> for nil.
\<close>

datatype ('e, 'a) error = Native 'e | Envelope "'a PanicError"

text \<open>
  What the code takes from the Go runtime and its libraries:
  \<^item> \<open>panicnil\<close>: whether \<^verbatim>\<open>panic(nil)\<close> keeps its nil argument, so that \<^verbatim>\<open>recover()\<close>
    returns nil for it. That is the language up to Go 1.20, and later under
    \<^verbatim>\<open>GODEBUG=panicnil=1\<close> (the default when the main module declares a Go version
    below 1.21). Otherwise \<^verbatim>\<open>panic(nil)\<close> panics with a \<^verbatim>\<open>*runtime.PanicNilError\<close>.
  \<^item> \<open>fmt_v\<close>: the rendering of a value under the verb \<^verbatim>\<open>%v\<close>.
  \<^item> \<open>callers\<close>: the stack trace that \<^verbatim>\<open>errors.Errorf\<close> captures when called from the
    named function.
\<close>

record 'a runtime =
  panicnil :: bool
  fmt_v :: "'a any \<Rightarrow> string"
  callers :: "string \<Rightarrow> StackTrace"

text \<open>
  The value of \<^verbatim>\<open>recover()\<close> in a deferred function, after the function body ended with
  the given outcome: nil when the goroutine is not panicking, the panic value otherwise.
  Either way the goroutine no longer panics afterwards.
\<close>

fun recover :: "'a runtime \<Rightarrow> ('r, 'a) outcome \<Rightarrow> 'a any" where
  "recover rt (Return r) = NilAny"
| "recover rt (Panicked NilAny) = (if panicnil rt then NilAny else PanicNilError)"
| "recover rt (Panicked (Val x)) = Val x"
| "recover rt (Panicked PanicNilError) = PanicNilError"

text \<open>
  \<^verbatim>\<open>func panicError(val interface{}) error {
      err := errors.Errorf("panic: %v", val).(pkgError)
      return PanicError{err, val}
  }\<close>
  The second argument names the calling function, which decides the captured stack. The
  result always has the dynamic type \<^verbatim>\<open>PanicError\<close>; its conversion to the interface
  \<^verbatim>\<open>error\<close> is the constructor \<open>Envelope\<close> at the callers.
\<close>

definition panicError :: "'a runtime \<Rightarrow> string \<Rightarrow> 'a any \<Rightarrow> 'a PanicError" where
  "panicError rt caller v =
     \<lparr>pkgError = \<lparr>msg = ''panic: '' @ fmt_v rt v, StackTrace = callers rt caller\<rparr>,
      val = v\<rparr>"

section \<open>Guarded calls\<close>

text \<open>
  \<^verbatim>\<open>func Do(fn func() error) (err error) {
      defer func() {
          if r := recover(); r != nil {
              err = panicError(r)
          }
      }()
      return fn()
  }\<close>
  When \<^verbatim>\<open>fn\<close> panics, the named result \<^verbatim>\<open>err\<close> still has its zero value nil when the
  deferred function runs.
\<close>

definition Do ::
  "'a runtime \<Rightarrow> (unit \<Rightarrow> (('e, 'a) error option, 'a) outcome)
     \<Rightarrow> (('e, 'a) error option, 'a) outcome" where
  "Do rt fn =
     (let out = fn ();
          r = recover rt out
      in if \<not> is_nil r then Return (Some (Envelope (panicError rt ''Do'' r)))
         else (case out of Return err \<Rightarrow> Return err | Panicked p \<Rightarrow> Return None))"

text \<open>
  \<^verbatim>\<open>func DoWithResult(fn func() (interface{}, error)) (res interface{}, err error) {
      defer func() {
          if r := recover(); r != nil {
              err = panicError(r)
          }
      }()
      return fn()
  }\<close>
\<close>

definition DoWithResult ::
  "'a runtime \<Rightarrow> (unit \<Rightarrow> ('a any \<times> ('e, 'a) error option, 'a) outcome)
     \<Rightarrow> ('a any \<times> ('e, 'a) error option, 'a) outcome" where
  "DoWithResult rt fn =
     (let out = fn ();
          r = recover rt out
      in if \<not> is_nil r then Return (NilAny, Some (Envelope (panicError rt ''DoWithResult'' r)))
         else (case out of
                 Return (res, err) \<Rightarrow> Return (res, err)
               | Panicked p \<Rightarrow> Return (NilAny, None)))"

section \<open>The global panic handler\<close>

text \<open>
  A handler \<^verbatim>\<open>func(err error)\<close> is a function from its argument to the outcome of the
  call; a value of that function type is an option, with \<open>None\<close> for the nil function.
\<close>

type_synonym ('e, 'a) handler = "('e, 'a) error option \<Rightarrow> (unit, 'a) outcome"

text \<open>
  \<^verbatim>\<open>var panicHandler atomic.Value\<close>. The interface values that go through it: the nil
  interface (what \<^verbatim>\<open>Load\<close> returns before any \<^verbatim>\<open>Store\<close>), or a value of the type
  \<^verbatim>\<open>func(err error)\<close>, which may be the nil function.
\<close>

datatype ('e, 'a) iface = NilIface | FuncIface "('e, 'a) handler option"

type_synonym ('e, 'a) atomic_Value = "('e, 'a) iface"

text \<open>
  \<^verbatim>\<open>atomic.Value.Load\<close> returns the value set by the most recent \<^verbatim>\<open>Store\<close>, or nil.
  \<^verbatim>\<open>atomic.Value.Store\<close> panics on the nil interface (result \<open>None\<close>); the only type
  ever stored here is \<^verbatim>\<open>func(err error)\<close>, so its other panic, on a change of type,
  cannot occur.
\<close>

definition atomic_Load :: "('e, 'a) atomic_Value \<Rightarrow> ('e, 'a) iface" where
  "atomic_Load v = v"

fun atomic_Store :: "('e, 'a) iface \<Rightarrow> ('e, 'a) atomic_Value \<Rightarrow> ('e, 'a) atomic_Value option" where
  "atomic_Store NilIface v = None"
| "atomic_Store (FuncIface f) v = Some (FuncIface f)"

text \<open>
  What a dispatch does that can be observed: a message handed to \<^verbatim>\<open>log.Printf\<close>, already
  formatted, and a call of the configured handler with its argument.
\<close>

datatype ('e, 'a) event = Printf string | HandlerCall "('e, 'a) error option"

fun handler_calls :: "('e, 'a) event list \<Rightarrow> ('e, 'a) error option list" where
  "handler_calls [] = []"
| "handler_calls (Printf s # evs) = handler_calls evs"
| "handler_calls (HandlerCall e # evs) = e # handler_calls evs"

fun log_lines :: "('e, 'a) event list \<Rightarrow> string list" where
  "log_lines [] = []"
| "log_lines (Printf s # evs) = s # log_lines evs"
| "log_lines (HandlerCall e # evs) = log_lines evs"

record ('e, 'a) world =
  panicHandler :: "('e, 'a) atomic_Value"
  events :: "('e, 'a) event list"

definition newline :: string where
  "newline = [CHR 0x0A]"

text \<open>
  The rendering of a \<^verbatim>\<open>PanicError\<close> under \<^verbatim>\<open>%+v\<close>: the \<^verbatim>\<open>Format\<close> method promoted from
  the embedded pkg/errors error writes the message and then each frame of the stack
  trace on a new line.
\<close>

definition fmt_plus_v :: "'a PanicError \<Rightarrow> string" where
  "fmt_plus_v p =
     msg (pkgError p) @ concat (map (\<lambda>fr. newline @ fr) (StackTrace (pkgError p)))"

text \<open>
  \<^verbatim>\<open>func SetPanicHandler(fn func(err error)) {
      panicHandler.Store(fn)
  }\<close>
  The argument is converted to an interface value of the type \<^verbatim>\<open>func(err error)\<close>.
  The result is \<open>None\<close> when the call panics.
\<close>

definition SetPanicHandler :: "('e, 'a) handler option \<Rightarrow> ('e, 'a) world \<Rightarrow> ('e, 'a) world option" where
  "SetPanicHandler fn w =
     (case atomic_Store (FuncIface fn) (panicHandler w) of
        None \<Rightarrow> None
      | Some v \<Rightarrow> Some (w\<lparr>panicHandler := v\<rparr>))"

text \<open>
  \<^verbatim>\<open>func handlePanic(val interface{}) {
      err := panicError(val)
      fn, _ := panicHandler.Load().(func(err error))
      if fn == nil {
          log.Printf("%+v\n", err)
          return
      }
      defer func() {
          if r := recover(); r != nil {
              log.Printf("panic in panic handler: %+v\noriginal: %+v\n", panicError(r), err)
          }
      }()
      fn(err)
  }\<close>
  The type assertion with two results gives the nil function when \<^verbatim>\<open>Load\<close> returned the
  nil interface.
\<close>

definition handlePanic ::
  "'a runtime \<Rightarrow> 'a any \<Rightarrow> ('e, 'a) world \<Rightarrow> (unit, 'a) outcome \<times> ('e, 'a) world" where
  "handlePanic rt v w =
     (let err = panicError rt ''handlePanic'' v;
          fn = (case atomic_Load (panicHandler w) of NilIface \<Rightarrow> None | FuncIface f \<Rightarrow> f)
      in case fn of
           None \<Rightarrow>
             (Return (), w\<lparr>events := events w @ [Printf (fmt_plus_v err @ newline)]\<rparr>)
         | Some h \<Rightarrow>
             (let out = h (Some (Envelope err));
                  w1 = w\<lparr>events := events w @ [HandlerCall (Some (Envelope err))]\<rparr>;
                  r = recover rt out
              in if \<not> is_nil r
                 then (Return (),
                       w1\<lparr>events := events w1 @
                          [Printf (''panic in panic handler: ''
                                   @ fmt_plus_v (panicError rt ''handlePanic.func1'' r)
                                   @ newline @ ''original: '' @ fmt_plus_v err @ newline)]\<rparr>)
                 else (Return (), w1)))"

section \<open>Guarded task launch\<close>

text \<open>
  \<^verbatim>\<open>func Go(fn func()) {
      go func() {
          defer func() {
              if r := recover(); r != nil {
                  handlePanic(r)
              }
          }()
          fn()
      }()
  }\<close>
  \<open>Go_func1\<close> is the function literal that the new goroutine runs.
\<close>

definition Go_func1 ::
  "'a runtime \<Rightarrow> (unit \<Rightarrow> (unit, 'a) outcome) \<Rightarrow> ('e, 'a) world
     \<Rightarrow> (unit, 'a) outcome \<times> ('e, 'a) world" where
  "Go_func1 rt fn w =
     (let out = fn ();
          r = recover rt out
      in if \<not> is_nil r then handlePanic rt r w else (Return (), w))"

text \<open>
  A process: the shared state, the goroutines that were started and have not run yet,
  and whether a panic reached the top of a goroutine, which ends the whole process.
\<close>

record ('e, 'a) process =
  world :: "('e, 'a) world"
  pool :: "(('e, 'a) world \<Rightarrow> (unit, 'a) outcome \<times> ('e, 'a) world) list"
  crashed :: bool

text \<open>The \<^verbatim>\<open>go\<close> statement only starts the goroutine; the caller goes on at once.\<close>

definition Go ::
  "'a runtime \<Rightarrow> (unit \<Rightarrow> (unit, 'a) outcome) \<Rightarrow> ('e, 'a) process
     \<Rightarrow> (unit, 'a) outcome \<times> ('e, 'a) process" where
  "Go rt fn p = (Return (), p\<lparr>pool := pool p @ [Go_func1 rt fn]\<rparr>)"

text \<open>The scheduler runs the goroutine at position \<open>i\<close> of the pool to its end.\<close>

definition run_goroutine :: "nat \<Rightarrow> ('e, 'a) process \<Rightarrow> ('e, 'a) process" where
  "run_goroutine i p =
     (if i < length (pool p) \<and> \<not> crashed p then
        (case (pool p ! i) (world p) of
           (Return u, w') \<Rightarrow> p\<lparr>world := w', pool := take i (pool p) @ drop (Suc i) (pool p)\<rparr>
         | (Panicked v, w') \<Rightarrow>
             p\<lparr>world := w', pool := take i (pool p) @ drop (Suc i) (pool p), crashed := True\<rparr>)
      else p)"

section \<open>Task groups\<close>

text \<open>
  Modelled from the spec: the package \<^verbatim>\<open>golang.org/x/sync/errgroup\<close> is a dependency and
  not among the sources. The spec describes it as the underlying cooperative-failure
  tracker: it counts the outstanding subtasks, retains the first non-nil error among
  them and discards the later ones, cancels the shared context (when there is one) on
  that first error and when \<^verbatim>\<open>Wait\<close> returns, and its \<^verbatim>\<open>Wait\<close> blocks until every subtask
  launched so far has completed. The record follows the fields of \<^verbatim>\<open>errgroup.Group\<close>:
  \<open>cancel\<close> says whether a cancel function is set, \<open>wg\<close> is the counter of the wait
  group, \<open>errOnce\<close> whether the once of the first error has fired.
\<close>

record ('e, 'a) errgroup =
  cancel :: bool
  wg :: nat
  errOnce :: bool
  err :: "('e, 'a) error option"

text \<open>The zero value \<^verbatim>\<open>errgroup.Group{}\<close>.\<close>

definition errgroup_zero :: "('e, 'a) errgroup" where
  "errgroup_zero = \<lparr>cancel = False, wg = 0, errOnce = False, err = None\<rparr>"

text \<open>
  \<^verbatim>\<open>type Group struct { g *errgroup.Group; once sync.Once }\<close>
  The pointer is an index into the heap of allocated trackers, \<open>None\<close> for nil; the
  once is the flag that says whether it has fired.
\<close>

record Group =
  g :: "nat option"
  once :: bool

type_synonym ('e, 'a) task = "unit \<Rightarrow> (('e, 'a) error option, 'a) outcome"

text \<open>
  The state of a program that uses one group: the allocated trackers, the group, the
  goroutines started by the tracker in the order of their start (each with the tracker
  it belongs to and the function it runs), the goroutines that have finished in the
  order of their completion, the number of calls of a context's cancel function, and
  whether a panic reached the top of a goroutine or of the caller.
\<close>

record ('e, 'a) sys =
  heap :: "('e, 'a) errgroup list"
  grp :: Group
  spawned :: "(nat \<times> ('e, 'a) task) list"
  completed :: "nat list"
  cancels :: nat
  faulted :: bool

text \<open>
  Modelled from the spec: \<^verbatim>\<open>errgroup.Group.Go\<close>, absent from the sources. It adds one to
  the wait group and starts a goroutine for \<^verbatim>\<open>f\<close>. A nil or dangling receiver is a
  fault of the caller.
\<close>

definition errgroup_Go :: "nat option \<Rightarrow> ('e, 'a) task \<Rightarrow> ('e, 'a) sys \<Rightarrow> ('e, 'a) sys" where
  "errgroup_Go ptr f s =
     (case ptr of
        None \<Rightarrow> s\<lparr>faulted := True\<rparr>
      | Some p \<Rightarrow>
          if p < length (heap s) then
            s\<lparr>heap := (heap s)[p := (heap s ! p)\<lparr>wg := wg (heap s ! p) + 1\<rparr>],
              spawned := spawned s @ [(p, f)]\<rparr>
          else s\<lparr>faulted := True\<rparr>)"

text \<open>
  Modelled from the spec: the goroutine that \<^verbatim>\<open>errgroup.Group.Go\<close> starts, run to its end
  by the scheduler. It calls \<^verbatim>\<open>f\<close>; a non-nil error is retained if it is the first one
  (and the context cancelled, when there is one), then the wait group is decremented.
  A panic of \<^verbatim>\<open>f\<close> is not intercepted by the tracker. A goroutine that does not exist or
  has already finished cannot be scheduled.
\<close>

definition errgroup_Go_func1 :: "nat \<Rightarrow> ('e, 'a) sys \<Rightarrow> ('e, 'a) sys" where
  "errgroup_Go_func1 k s =
     (if k < length (spawned s) \<and> k \<notin> set (completed s) then
        (case spawned s ! k of (p, f) \<Rightarrow>
           (case f () of
              Panicked v \<Rightarrow> s\<lparr>faulted := True\<rparr>
            | Return e \<Rightarrow>
                if p < length (heap s) \<and> 0 < wg (heap s ! p) then
                  (let h = heap s ! p;
                       first = (e \<noteq> None \<and> \<not> errOnce h);
                       h1 = (if first then h\<lparr>errOnce := True, err := e\<rparr> else h)
                   in s\<lparr>heap := (heap s)[p := h1\<lparr>wg := wg h1 - 1\<rparr>],
                        completed := completed s @ [k],
                        cancels := cancels s + (if first \<and> cancel h then 1 else 0)\<rparr>)
                else s\<lparr>faulted := True\<rparr>))
      else s)"

text \<open>
  Modelled from the spec: \<^verbatim>\<open>errgroup.Group.Wait\<close>, absent from the sources. While
  subtasks are outstanding the call does not return (\<open>None\<close>); once the wait group is at
  zero it cancels the context, when there is one, and returns the retained error.
\<close>

definition errgroup_Wait ::
  "nat option \<Rightarrow> ('e, 'a) sys \<Rightarrow> ('e, 'a) error option option \<times> ('e, 'a) sys" where
  "errgroup_Wait ptr s =
     (case ptr of
        None \<Rightarrow> (None, s\<lparr>faulted := True\<rparr>)
      | Some p \<Rightarrow>
          if p < length (heap s) then
            (let h = heap s ! p
             in if wg h = 0
                then (Some (err h), s\<lparr>cancels := cancels s + (if cancel h then 1 else 0)\<rparr>)
                else (None, s))
          else (None, s\<lparr>faulted := True\<rparr>))"

text \<open>
  \<^verbatim>\<open>func GroupWithContext(ctx context.Context) (*Group, context.Context) {
      g, ctx := errgroup.WithContext(ctx)
      return &Group{g: g}, ctx
  }\<close>
  The state right after the call: one tracker with a cancel function, no goroutine yet.
  The derived context is present only through the count of its cancellations.
\<close>

definition GroupWithContext :: "('e, 'a) sys" where
  "GroupWithContext =
     \<lparr>heap = [\<lparr>cancel = True, wg = 0, errOnce = False, err = None\<rparr>],
      grp = \<lparr>g = Some 0, once = False\<rparr>,
      spawned = [], completed = [], cancels = 0, faulted = False\<rparr>"

text \<open>The state with a zero \<^verbatim>\<open>Group\<close> (\<^verbatim>\<open>var g safe.Group\<close>): nothing is allocated.\<close>

definition zero_Group :: "('e, 'a) sys" where
  "zero_Group =
     \<lparr>heap = [], grp = \<lparr>g = None, once = False\<rparr>,
      spawned = [], completed = [], cancels = 0, faulted = False\<rparr>"

text \<open>
  \<^verbatim>\<open>func (g *Group) init() {
      g.once.Do(func() {
          if g.g == nil {
              g.g = &errgroup.Group{}
          }
      })
  }\<close>
  \<^verbatim>\<open>sync.Once.Do\<close> runs the function only on its first call, and no call returns before
  that run has ended: the whole of \<^verbatim>\<open>init\<close> is one step.
\<close>

definition Group_init :: "('e, 'a) sys \<Rightarrow> ('e, 'a) sys" where
  "Group_init s =
     (if once (grp s) then s
      else (case g (grp s) of
              None \<Rightarrow>
                s\<lparr>heap := heap s @ [errgroup_zero],
                  grp := \<lparr>g = Some (length (heap s)), once = True\<rparr>\<rparr>
            | Some p \<Rightarrow> s\<lparr>grp := (grp s)\<lparr>once := True\<rparr>\<rparr>))"

text \<open>
  \<^verbatim>\<open>func (g *Group) Go(fn func() error) {
      g.init()
      g.g.Go(func() error {
          return Do(fn)
      })
  }\<close>
\<close>

definition Group_Go :: "'a runtime \<Rightarrow> ('e, 'a) task \<Rightarrow> ('e, 'a) sys \<Rightarrow> ('e, 'a) sys" where
  "Group_Go rt fn s =
     (let s1 = Group_init s
      in errgroup_Go (g (grp s1)) (\<lambda>u. Do rt fn) s1)"

text \<open>
  \<^verbatim>\<open>func (g *Group) Wait() error {
      g.init()
      return g.g.Wait()
  }\<close>
\<close>

definition Group_Wait :: "('e, 'a) sys \<Rightarrow> ('e, 'a) error option option \<times> ('e, 'a) sys" where
  "Group_Wait s =
     (let s1 = Group_init s
      in errgroup_Wait (g (grp s1)) s1)"

text \<open>
  What can happen to a group, one step at a time: the caller launches a subtask, the
  scheduler runs a started goroutine to its end, or the caller calls \<^verbatim>\<open>Wait\<close> (a call
  that finds subtasks outstanding stays blocked; the step that lets it return is a
  later \<open>CallWait\<close>, since \<^verbatim>\<open>init\<close> changes nothing the second time). After a fault
  nothing runs any more.
\<close>

datatype ('e, 'a) act = CallGo "('e, 'a) task" | Finish nat | CallWait

fun step :: "'a runtime \<Rightarrow> ('e, 'a) sys \<Rightarrow> ('e, 'a) act \<Rightarrow> ('e, 'a) sys" where
  "step rt s (CallGo fn) = (if faulted s then s else Group_Go rt fn s)"
| "step rt s (Finish k) = (if faulted s then s else errgroup_Go_func1 k s)"
| "step rt s CallWait = (if faulted s then s else snd (Group_Wait s))"

fun run :: "'a runtime \<Rightarrow> ('e, 'a) act list \<Rightarrow> ('e, 'a) sys \<Rightarrow> ('e, 'a) sys" where
  "run rt [] s = s"
| "run rt (a # as) s = run rt as (step rt s a)"

text \<open>The functions passed to \<^verbatim>\<open>Group.Go\<close> by a schedule, in the order of the calls.\<close>

fun launches :: "('e, 'a) act list \<Rightarrow> ('e, 'a) task list" where
  "launches [] = []"
| "launches (CallGo fn # as) = fn # launches as"
| "launches (Finish k # as) = launches as"
| "launches (CallWait # as) = launches as"

fun is_call :: "('e, 'a) act \<Rightarrow> bool" where
  "is_call (CallGo fn) = True"
| "is_call (Finish k) = False"
| "is_call CallWait = True"

text \<open>
  The spec's "first non-nil error (or nil if all succeeded)" of a list of results taken
  in the order of completion.
\<close>

fun first_error :: "(('e, 'a) error option, 'a) outcome list \<Rightarrow> ('e, 'a) error option" where
  "first_error [] = None"
| "first_error (Return (Some e) # rs) = Some e"
| "first_error (Return None # rs) = first_error rs"
| "first_error (Panicked v # rs) = first_error rs"

section \<open>The invariant of a group\<close>

text \<open>
  The error a tracker has retained after the subtasks \<open>cs\<close> (positions in the list \<open>fns\<close>
  of launched functions, in the order of completion) have completed.
\<close>

definition retained ::
  "'a runtime \<Rightarrow> ('e, 'a) task list \<Rightarrow> nat list \<Rightarrow> ('e, 'a) error option" where
  "retained rt fns cs = first_error (map (\<lambda>k. Do rt (fns ! k)) cs)"

text \<open>
  What holds of every state reached from a zero group (\<open>c\<close> false) or from a group with
  a context (\<open>c\<close> true) after the functions \<open>fns\<close> were launched: no fault, one goroutine
  per launched function, each running \<^verbatim>\<open>Do(fn)\<close> for the one tracker; no subtask completed
  twice; no cancellation without a context; and either nothing is allocated yet, or the
  one tracker counts the outstanding subtasks and holds the first error.
\<close>

definition group_inv ::
  "bool \<Rightarrow> 'a runtime \<Rightarrow> ('e, 'a) task list \<Rightarrow> ('e, 'a) sys \<Rightarrow> bool" where
  "group_inv c rt fns s \<longleftrightarrow>
     \<not> faulted s
     \<and> spawned s = map (\<lambda>fn. (0, \<lambda>u. Do rt fn)) fns
     \<and> distinct (completed s)
     \<and> set (completed s) \<subseteq> {..<length fns}
     \<and> (c \<or> cancels s = 0)
     \<and> (if heap s = [] then g (grp s) = None \<and> \<not> once (grp s) \<and> fns = [] \<and> \<not> c
         else g (grp s) = Some 0 \<and> (c \<or> once (grp s))
              \<and> heap s =
                  [\<lparr>cancel = c, wg = length fns - length (completed s),
                    errOnce = (retained rt fns (completed s) \<noteq> None),
                    err = retained rt fns (completed s)\<rparr>])"

section \<open>Concrete inputs\<close>

text \<open>Two runtimes for concrete runs: the one that keeps nil panics, and the one of Go 1.21.\<close>

definition rt_panicnil :: "nat runtime" where
  "rt_panicnil = \<lparr>panicnil = True, fmt_v = (\<lambda>v. ''v''), callers = (\<lambda>f. [f])\<rparr>"

definition rt_go121 :: "nat runtime" where
  "rt_go121 = \<lparr>panicnil = False, fmt_v = (\<lambda>v. ''v''), callers = (\<lambda>f. [f])\<rparr>"

text \<open>A state with no handler and an empty log, and two handlers.\<close>

definition world0 :: "(string, nat) world" where
  "world0 = \<lparr>panicHandler = NilIface, events = []\<rparr>"

definition h_ok :: "(string, nat) handler" where
  "h_ok = (\<lambda>e. Return ())"

definition h_panic_nil :: "(string, nat) handler" where
  "h_panic_nil = (\<lambda>e. Panicked NilAny)"

text \<open>Subtasks: one that succeeds, two that fail, one that panics, one that panics with nil.\<close>

definition f_ok :: "(string, nat) task" where
  "f_ok = (\<lambda>u. Return None)"

definition f_err :: "(string, nat) task" where
  "f_err = (\<lambda>u. Return (Some (Native ''boom'')))"

definition f_err2 :: "(string, nat) task" where
  "f_err2 = (\<lambda>u. Return (Some (Native ''second'')))"

definition f_panic :: "(string, nat) task" where
  "f_panic = (\<lambda>u. Panicked (Val 7))"

definition f_panic_nil :: "(string, nat) task" where
  "f_panic_nil = (\<lambda>u. Panicked NilAny)"

text \<open>
  Schedules: three subtasks of which the second completes first; the same with the first
  subtask still outstanding; one successful subtask; a panicking subtask that is the
  first to fail; calls of \<^verbatim>\<open>Wait\<close> before, between and after the launches.
\<close>

definition sched_all_done :: "(string, nat) act list" where
  "sched_all_done = [CallGo f_err, CallGo f_err2, CallGo f_ok, Finish 1, Finish 2, Finish 0]"

definition sched_outstanding :: "(string, nat) act list" where
  "sched_outstanding = [CallGo f_err, CallGo f_err2, CallGo f_ok, Finish 1, Finish 2]"

definition sched_ok :: "(string, nat) act list" where
  "sched_ok = [CallGo f_ok, Finish 0]"

definition sched_panic :: "(string, nat) act list" where
  "sched_panic = [CallGo f_ok, CallGo f_panic, CallGo f_err, Finish 0, Finish 1, Finish 2]"

definition sched_calls :: "(string, nat) act list" where
  "sched_calls = [CallWait, CallGo f_err, CallGo f_panic, CallWait, Finish 1, Finish 0, CallWait]"

section \<open>Properties of the guarded calls\<close>

lemma is_nil_iff: "is_nil p \<longleftrightarrow> p = NilAny"
  by (cases p) simp_all

lemma recover_Panicked: "p \<noteq> NilAny \<Longrightarrow> recover rt (Panicked p) = p"
  by (cases p) simp_all

lemma Do_Panicked:
  "fn () = Panicked p \<Longrightarrow> p \<noteq> NilAny \<Longrightarrow>
     Do rt fn = Return (Some (Envelope (panicError rt ''Do'' p)))"
  by (simp add: Do_def recover_Panicked is_nil_iff)

lemma Do_total: "\<exists>e. Do rt fn = Return e"
  by (simp add: Do_def Let_def split: outcome.split)

text \<open>
  Claim C1, as amended. When \<^verbatim>\<open>fn\<close> panics with a payload \<open>p\<close> other than nil, \<^verbatim>\<open>Do\<close>
  returns normally, with a non-nil error that is a \<^verbatim>\<open>PanicError\<close> built from \<open>p\<close>, and
  the accessor \<^verbatim>\<open>Panic\<close> of that error returns \<open>p\<close> itself, under either treatment of
  \<^verbatim>\<open>panic(nil)\<close> by the runtime.
\<close>

theorem Do_panic_payload:
  "fn () = Panicked p \<Longrightarrow> p \<noteq> NilAny \<Longrightarrow>
     Do rt fn = Return (Some (Envelope (panicError rt ''Do'' p)))
     \<and> Panic (panicError rt ''Do'' p) = p"
  by (simp add: Do_def recover_Panicked is_nil_iff Panic_def panicError_def)

theorem Do_panic_payload_witness:
  "Do rt_go121 (\<lambda>u. Panicked (Val 7)) =
     (Return (Some (Envelope (panicError rt_go121 ''Do'' (Val 7))))
        :: ((string, nat) error option, nat) outcome)
   \<and> Panic (panicError rt_go121 ''Do'' (Val 7)) = Val 7"
  using Do_panic_payload [of "\<lambda>u. Panicked (Val 7)" "Val 7" rt_go121] by simp

text \<open>
  Claim C1 as stated, for every payload, fails at the nil payload by the design of the
  runtime: from Go 1.21 on, \<^verbatim>\<open>panic(nil)\<close> panics with a \<^verbatim>\<open>*runtime.PanicNilError\<close>, so the
  error that \<^verbatim>\<open>Do\<close> returns is a \<^verbatim>\<open>PanicError\<close> whose payload is that value and not the
  nil that was passed to \<^verbatim>\<open>panic\<close>.
\<close>

theorem Do_panic_nil_go121_counterexample:
  "Do rt_go121 (\<lambda>u. Panicked NilAny) =
       (Return (Some (Envelope (panicError rt_go121 ''Do'' PanicNilError)))
          :: ((string, nat) error option, nat) outcome)
   \<and> Panic (panicError rt_go121 ''Do'' PanicNilError) \<noteq> NilAny"
  by (simp add: Do_def rt_go121_def Panic_def panicError_def)

text \<open>
  A defect of the code, shared by its four deferred functions: the guard \<^verbatim>\<open>r != nil\<close>
  takes a panic for which \<^verbatim>\<open>recover()\<close> returns nil for no panic at all. Where the
  runtime keeps the nil of \<^verbatim>\<open>panic(nil)\<close>, \<^verbatim>\<open>Do\<close> intercepts the panic and returns the nil
  error, against its own comment: "If a panic occurs, it will be recovered and returned
  as a safe.PanicError."
\<close>

lemma Do_panic_nil_swallowed:
  "Do rt_panicnil (\<lambda>u. Panicked NilAny) = (Return None :: ((string, nat) error option, nat) outcome)"
  by (simp add: Do_def rt_panicnil_def)

text \<open>
  Claim C2. When \<^verbatim>\<open>fn\<close> returns normally with the error \<open>e\<close>, nil or not, \<^verbatim>\<open>Do\<close> returns
  exactly \<open>e\<close>: nothing is wrapped when no panic occurs.
\<close>

theorem Do_pass_through: "fn () = Return e \<Longrightarrow> Do rt fn = Return e"
  by (simp add: Do_def)

theorem Do_pass_through_witness:
  "Do rt_go121 (\<lambda>u. Return (Some (Native ''boom''))) = Return (Some (Native ''boom''))
   \<and> Do rt_go121 (\<lambda>u. Return None) = (Return None :: ((string, nat) error option, nat) outcome)"
  using Do_pass_through [of "\<lambda>u. Return (Some (Native ''boom''))" "Some (Native ''boom'')" rt_go121]
    Do_pass_through [of "\<lambda>u. Return None" "None :: (string, nat) error option" rt_go121]
  by simp

text \<open>
  What \<^verbatim>\<open>DoWithResult\<close> does whenever \<^verbatim>\<open>recover()\<close> tells the truth. When \<^verbatim>\<open>fn\<close> returns
  \<open>(v, e)\<close> normally, the call returns \<open>(v, e)\<close> unchanged (in particular \<open>(v, nil)\<close>). When
  \<^verbatim>\<open>fn\<close> panics with a payload other than nil, the call returns the zero value nil for
  the result together with a \<^verbatim>\<open>PanicError\<close> of that payload; when \<^verbatim>\<open>fn\<close> panics with nil
  and the runtime is that of Go 1.21, it returns nil together with a \<^verbatim>\<open>PanicError\<close> of
  the runtime's \<^verbatim>\<open>*runtime.PanicNilError\<close>.
\<close>

lemma DoWithResult_outcomes:
  "(fn () = Return (v, e) \<longrightarrow> DoWithResult rt fn = Return (v, e))
   \<and> (fn () = Panicked p \<and> p \<noteq> NilAny \<longrightarrow>
        DoWithResult rt fn = Return (NilAny, Some (Envelope (panicError rt ''DoWithResult'' p))))
   \<and> (fn () = Panicked NilAny \<and> \<not> panicnil rt \<longrightarrow>
        DoWithResult rt fn =
          Return (NilAny, Some (Envelope (panicError rt ''DoWithResult'' PanicNilError))))"
  by (simp add: DoWithResult_def recover_Panicked is_nil_iff)

text \<open>
  Claim C3, which the code breaks. The claim: when \<^verbatim>\<open>fn\<close> raises a fault, \<^verbatim>\<open>DoWithResult\<close>
  returns the zero value together with a \<^verbatim>\<open>PanicError\<close>; the comment of the function says
  the same ("If a panic occurs, it will be recovered and returned as a
  safe.PanicError"). Where the runtime keeps the nil of \<^verbatim>\<open>panic(nil)\<close>, the call on a
  function that panics with nil returns the nil result with the nil error: the panic
  is intercepted and then lost, since the guard \<^verbatim>\<open>r != nil\<close> is false.
\<close>

theorem DoWithResult_panic_nil_swallowed:
  "DoWithResult rt_panicnil (\<lambda>u. Panicked NilAny) =
     (Return (NilAny, None) :: (nat any \<times> (string, nat) error option, nat) outcome)"
  by (simp add: DoWithResult_def rt_panicnil_def)

section \<open>Properties of the dispatch to the global handler\<close>

lemma handlePanic_no_handler:
  "panicHandler w = NilIface \<or> panicHandler w = FuncIface None \<Longrightarrow>
     handlePanic rt v w =
       (Return (), w\<lparr>events := events w @
          [Printf (fmt_plus_v (panicError rt ''handlePanic'' v) @ newline)]\<rparr>)"
  by (auto simp: handlePanic_def atomic_Load_def)

lemma handlePanic_handler:
  "panicHandler w = FuncIface (Some h) \<Longrightarrow>
     handlePanic rt v w =
       (let err = panicError rt ''handlePanic'' v;
            w1 = w\<lparr>events := events w @ [HandlerCall (Some (Envelope err))]\<rparr>;
            r = recover rt (h (Some (Envelope err)))
        in if r = NilAny then (Return (), w1)
           else (Return (),
                 w1\<lparr>events := events w1 @
                   [Printf (''panic in panic handler: ''
                            @ fmt_plus_v (panicError rt ''handlePanic.func1'' r)
                            @ newline @ ''original: '' @ fmt_plus_v err @ newline)]\<rparr>))"
  by (simp add: handlePanic_def atomic_Load_def Let_def is_nil_iff)

lemma handlePanic_returns: "fst (handlePanic rt v w) = Return ()"
  by (simp add: handlePanic_def Let_def split: option.split iface.split)

lemma fmt_plus_v_panicError:
  "fmt_plus_v (panicError rt c v) =
     ''panic: '' @ fmt_v rt v @ concat (map (\<lambda>fr. newline @ fr) (callers rt c))"
  by (simp add: fmt_plus_v_def panicError_def)

text \<open>
  What \<^verbatim>\<open>handlePanic\<close> does whenever \<^verbatim>\<open>recover()\<close> tells the truth. It returns normally,
  whether the handler returns or panics. When no handler is
  configured (nothing was ever stored, or the nil function was), it writes the detailed
  rendering of the envelope to the log: the message followed by every frame of the
  stack trace. When the configured handler itself panics and \<^verbatim>\<open>recover()\<close> reports that
  panic (a payload other than nil, or nil on the runtime of Go 1.21, which replaces it
  by \<^verbatim>\<open>*runtime.PanicNilError\<close>), the handler's panic is converted to a new envelope and
  one log line is written with the renderings of both that envelope and the original.
\<close>

lemma handlePanic_dispatch:
  "fst (handlePanic rt v w) = Return ()
   \<and> (panicHandler w = NilIface \<or> panicHandler w = FuncIface None \<longrightarrow>
        events (snd (handlePanic rt v w)) =
          events w @ [Printf (fmt_plus_v (panicError rt ''handlePanic'' v) @ newline)]
        \<and> fmt_plus_v (panicError rt ''handlePanic'' v) =
            ''panic: '' @ fmt_v rt v
              @ concat (map (\<lambda>fr. newline @ fr) (callers rt ''handlePanic'')))
   \<and> (panicHandler w = FuncIface (Some h)
        \<and> h (Some (Envelope (panicError rt ''handlePanic'' v))) = Panicked q
        \<and> (q \<noteq> NilAny \<or> \<not> panicnil rt) \<longrightarrow>
        events (snd (handlePanic rt v w)) =
          events w @
            [HandlerCall (Some (Envelope (panicError rt ''handlePanic'' v))),
             Printf (''panic in panic handler: ''
                     @ fmt_plus_v (panicError rt ''handlePanic.func1''
                         (if q = NilAny then PanicNilError else q))
                     @ newline @ ''original: ''
                     @ fmt_plus_v (panicError rt ''handlePanic'' v) @ newline)])"
proof (intro conjI impI)
  show "fst (handlePanic rt v w) = Return ()"
    by (rule handlePanic_returns)
next
  assume "panicHandler w = NilIface \<or> panicHandler w = FuncIface None"
  then show "events (snd (handlePanic rt v w)) =
      events w @ [Printf (fmt_plus_v (panicError rt ''handlePanic'' v) @ newline)]"
    by (simp add: handlePanic_no_handler)
next
  show "fmt_plus_v (panicError rt ''handlePanic'' v) =
      ''panic: '' @ fmt_v rt v @ concat (map (\<lambda>fr. newline @ fr) (callers rt ''handlePanic''))"
    by (rule fmt_plus_v_panicError)
next
  assume a: "panicHandler w = FuncIface (Some h)
        \<and> h (Some (Envelope (panicError rt ''handlePanic'' v))) = Panicked q
        \<and> (q \<noteq> NilAny \<or> \<not> panicnil rt)"
  define r where "r = (if q = NilAny then PanicNilError else q)"
  from a have rec: "recover rt (h (Some (Envelope (panicError rt ''handlePanic'' v)))) = r"
    unfolding r_def by (cases q) auto
  have "r \<noteq> NilAny"
    unfolding r_def by auto
  with a rec show "events (snd (handlePanic rt v w)) =
          events w @
            [HandlerCall (Some (Envelope (panicError rt ''handlePanic'' v))),
             Printf (''panic in panic handler: ''
                     @ fmt_plus_v (panicError rt ''handlePanic.func1''
                         (if q = NilAny then PanicNilError else q))
                     @ newline @ ''original: ''
                     @ fmt_plus_v (panicError rt ''handlePanic'' v) @ newline)]"
    unfolding r_def [symmetric] by (simp add: handlePanic_handler Let_def)
qed

text \<open>
  Claim C7, which the code breaks. The claim: if the configured handler itself raises a
  fault, that fault is intercepted, converted to a new envelope, and a log line is
  written with both the handler's fault and the original one. Where the runtime keeps
  the nil of \<^verbatim>\<open>panic(nil)\<close>, a handler that panics with nil is intercepted and then lost:
  the guard \<^verbatim>\<open>r != nil\<close> of the deferred function is false, no envelope is made and no
  log line is written. The only trace of the dispatch is the call of the handler.
\<close>

theorem handlePanic_handler_nil_swallowed:
  "events (snd (handlePanic rt_panicnil (Val 3) (world0\<lparr>panicHandler := FuncIface (Some h_panic_nil)\<rparr>))) =
     [HandlerCall (Some (Envelope (panicError rt_panicnil ''handlePanic'' (Val 3))))]
   \<and> log_lines (events (snd (handlePanic rt_panicnil (Val 3)
        (world0\<lparr>panicHandler := FuncIface (Some h_panic_nil)\<rparr>)))) = []"
  by (simp add: handlePanic_handler Let_def world0_def h_panic_nil_def rt_panicnil_def)

text \<open>
  Claim C10. \<^verbatim>\<open>SetPanicHandler(nil)\<close> does not panic: what it stores is the nil function
  as a value of the function type, not the nil interface. Every dispatch after it, from
  whatever state of the log, writes the same log line and reaches the same result as a
  dispatch with no handler ever stored, and leaves the stored value in place.
\<close>

theorem SetPanicHandler_nil:
  "SetPanicHandler None w = Some (w\<lparr>panicHandler := FuncIface None\<rparr>)
   \<and> handlePanic rt v (w\<lparr>panicHandler := FuncIface None\<rparr>) =
       (Return (),
        w\<lparr>panicHandler := FuncIface None,
          events := events w @ [Printf (fmt_plus_v (panicError rt ''handlePanic'' v) @ newline)]\<rparr>)
   \<and> handlePanic rt v (w\<lparr>panicHandler := NilIface\<rparr>) =
       (Return (),
        w\<lparr>panicHandler := NilIface,
          events := events w @ [Printf (fmt_plus_v (panicError rt ''handlePanic'' v) @ newline)]\<rparr>)
   \<and> events (snd (handlePanic rt v (w\<lparr>panicHandler := FuncIface None\<rparr>))) =
       events (snd (handlePanic rt v (w\<lparr>panicHandler := NilIface\<rparr>)))"
  by (simp add: SetPanicHandler_def handlePanic_no_handler)

theorem SetPanicHandler_nil_witness:
  "SetPanicHandler None (world0\<lparr>panicHandler := FuncIface (Some h_ok)\<rparr>) =
     Some (world0\<lparr>panicHandler := FuncIface None\<rparr>)
   \<and> events (snd (handlePanic rt_go121 (Val 3) (world0\<lparr>panicHandler := FuncIface None\<rparr>))) =
       [Printf (fmt_plus_v (panicError rt_go121 ''handlePanic'' (Val 3)) @ newline)]"
  using SetPanicHandler_nil [where w = "world0\<lparr>panicHandler := FuncIface (Some h_ok)\<rparr>"
      and rt = rt_go121 and v = "Val 3"]
  by (simp add: world0_def)

section \<open>Properties of the guarded task launch\<close>

lemma Go_func1_Panicked:
  "fn () = Panicked p \<Longrightarrow> p \<noteq> NilAny \<or> \<not> panicnil rt \<Longrightarrow>
     Go_func1 rt fn w = handlePanic rt (if p = NilAny then PanicNilError else p) w"
  by (cases p) (auto simp: Go_func1_def)

lemma Go_func1_returns: "fst (Go_func1 rt fn w) = Return ()"
  by (simp add: Go_func1_def Let_def handlePanic_returns)

lemma handler_calls_append: "handler_calls (xs @ ys) = handler_calls xs @ handler_calls ys"
  by (induction xs rule: handler_calls.induct) simp_all

lemma handlePanic_calls_once:
  "panicHandler w = FuncIface (Some h) \<Longrightarrow>
     handler_calls (events (snd (handlePanic rt v w))) =
       handler_calls (events w) @ [Some (Envelope (panicError rt ''handlePanic'' v))]"
  by (simp add: handlePanic_handler Let_def handler_calls_append)

lemma run_goroutine_Go:
  "crashed (run_goroutine (length (pool P)) (snd (Go rt fn P))) = crashed P"
  using Go_func1_returns [of rt fn "world P"]
  by (auto simp: run_goroutine_def Go_def split: prod.split outcome.split)

text \<open>
  What \<^verbatim>\<open>Go\<close> does whenever \<^verbatim>\<open>recover()\<close> tells the truth. \<^verbatim>\<open>Go\<close> returns to its caller at
  once, having only started the goroutine. Whether \<^verbatim>\<open>fn\<close> returns or panics, and whether
  the handler returns or panics, the goroutine ends normally, so that no panic of \<^verbatim>\<open>fn\<close>
  reaches the top of the goroutine and ends the process. When \<^verbatim>\<open>fn\<close> panics and
  \<^verbatim>\<open>recover()\<close> reports it (a payload \<open>p\<close> other than nil, or nil on the runtime of Go
  1.21, which replaces it by \<^verbatim>\<open>*runtime.PanicNilError\<close>): if a handler is configured it is
  called exactly once, with a \<^verbatim>\<open>PanicError\<close> of the reported payload, whose accessor
  returns that payload; if none is configured, one log line with the detailed rendering
  of that error is written.
\<close>

lemma Go_panic_dispatch:
  "Go rt fn P = (Return (), P\<lparr>pool := pool P @ [Go_func1 rt fn]\<rparr>)
   \<and> fst (Go_func1 rt fn w) = Return ()
   \<and> (\<not> crashed P \<longrightarrow> \<not> crashed (run_goroutine (length (pool P)) (snd (Go rt fn P))))
   \<and> (fn () = Panicked p \<and> (p \<noteq> NilAny \<or> \<not> panicnil rt)
        \<and> panicHandler w = FuncIface (Some h) \<longrightarrow>
        handler_calls (events (snd (Go_func1 rt fn w))) =
          handler_calls (events w) @
            [Some (Envelope (panicError rt ''handlePanic''
                               (if p = NilAny then PanicNilError else p)))])
   \<and> Panic (panicError rt ''handlePanic'' p) = p
   \<and> (fn () = Panicked p \<and> (p \<noteq> NilAny \<or> \<not> panicnil rt)
        \<and> (panicHandler w = NilIface \<or> panicHandler w = FuncIface None) \<longrightarrow>
        events (snd (Go_func1 rt fn w)) =
          events w @
            [Printf (fmt_plus_v (panicError rt ''handlePanic''
                                   (if p = NilAny then PanicNilError else p)) @ newline)])"
proof (intro conjI impI)
  show "Go rt fn P = (Return (), P\<lparr>pool := pool P @ [Go_func1 rt fn]\<rparr>)"
    by (simp add: Go_def)
next
  show "fst (Go_func1 rt fn w) = Return ()"
    by (rule Go_func1_returns)
next
  assume "\<not> crashed P"
  then show "\<not> crashed (run_goroutine (length (pool P)) (snd (Go rt fn P)))"
    by (simp add: run_goroutine_Go)
next
  assume a: "fn () = Panicked p \<and> (p \<noteq> NilAny \<or> \<not> panicnil rt)
        \<and> panicHandler w = FuncIface (Some h)"
  then have "Go_func1 rt fn w = handlePanic rt (if p = NilAny then PanicNilError else p) w"
    by (intro Go_func1_Panicked) simp_all
  with a show "handler_calls (events (snd (Go_func1 rt fn w))) =
      handler_calls (events w) @
        [Some (Envelope (panicError rt ''handlePanic''
                           (if p = NilAny then PanicNilError else p)))]"
    by (simp only: handlePanic_calls_once)
next
  show "Panic (panicError rt ''handlePanic'' p) = p"
    by (simp add: Panic_def panicError_def)
next
  assume a: "fn () = Panicked p \<and> (p \<noteq> NilAny \<or> \<not> panicnil rt)
        \<and> (panicHandler w = NilIface \<or> panicHandler w = FuncIface None)"
  then have "Go_func1 rt fn w = handlePanic rt (if p = NilAny then PanicNilError else p) w"
    by (intro Go_func1_Panicked) simp_all
  with a show "events (snd (Go_func1 rt fn w)) =
      events w @
        [Printf (fmt_plus_v (panicError rt ''handlePanic''
                               (if p = NilAny then PanicNilError else p)) @ newline)]"
    by (simp add: handlePanic_no_handler)
qed

text \<open>
  Claim C6, which the code breaks. The claim: for every function passed to \<^verbatim>\<open>Go\<close> that
  raises a fault, a configured handler is invoked exactly once with the envelope of the
  fault, and without a handler a log line with the rendered fault is written; the
  comment of \<^verbatim>\<open>Go\<close> says the same ("If a panic occurs, it will be recovered and passed to
  the global panic handler"). Where the runtime keeps the nil of \<^verbatim>\<open>panic(nil)\<close>, the
  goroutine of a function that panics with nil intercepts the panic and then loses it:
  the guard \<^verbatim>\<open>r != nil\<close> is false and \<^verbatim>\<open>handlePanic\<close> is not reached, so that nothing is
  logged when no handler is configured, and a configured handler is not called.
\<close>

theorem Go_panic_nil_swallowed:
  "events (snd (Go_func1 rt_panicnil (\<lambda>u. Panicked NilAny) world0)) = []
   \<and> handler_calls (events (snd (Go_func1 rt_panicnil (\<lambda>u. Panicked NilAny)
        (world0\<lparr>panicHandler := FuncIface (Some h_ok)\<rparr>)))) = []"
  by (simp add: Go_func1_def rt_panicnil_def world0_def)

section \<open>Properties of task groups\<close>

lemma length_le_bound: "distinct cs \<Longrightarrow> set cs \<subseteq> {..<n} \<Longrightarrow> length cs \<le> n"
proof -
  assume d: "distinct cs" and s: "set cs \<subseteq> {..<n}"
  have "card (set cs) \<le> card {..<n}"
    using s by (intro card_mono) simp_all
  with d show ?thesis
    by (simp add: distinct_card)
qed

lemma length_less_bound:
  "distinct cs \<Longrightarrow> set cs \<subseteq> {..<n} \<Longrightarrow> k < n \<Longrightarrow> k \<notin> set cs \<Longrightarrow> length cs < n"
  using length_le_bound [of "k # cs" n] by simp

lemma first_error_single: "first_error [Return e] = e"
  by (cases e) simp_all

lemma first_error_snoc:
  "first_error (rs @ [Return e]) = (if first_error rs = None then e else first_error rs)"
  by (induction rs rule: first_error.induct) (simp_all add: first_error_single)

lemma retained_launch:
  "set cs \<subseteq> {..<length fns} \<Longrightarrow> retained rt (fns @ [fn]) cs = retained rt fns cs"
proof -
  assume "set cs \<subseteq> {..<length fns}"
  then have "map (\<lambda>k. Do rt ((fns @ [fn]) ! k)) cs = map (\<lambda>k. Do rt (fns ! k)) cs"
    by (intro map_cong) (auto simp: nth_append)
  then show ?thesis
    by (simp only: retained_def)
qed

lemma retained_Nil: "retained rt fns [] = None"
  by (simp add: retained_def)

lemma retained_finish:
  "Do rt (fns ! k) = Return e \<Longrightarrow>
     retained rt fns (cs @ [k]) = (if retained rt fns cs = None then e else retained rt fns cs)"
  by (simp add: retained_def first_error_snoc)

lemma group_inv_zero: "group_inv False rt [] zero_Group"
  by (simp add: group_inv_def zero_Group_def)

lemma group_inv_ctx: "group_inv True rt [] GroupWithContext"
  by (simp add: group_inv_def GroupWithContext_def retained_Nil)

lemma group_inv_init:
  "group_inv c rt fns s \<Longrightarrow> group_inv c rt fns (Group_init s) \<and> heap (Group_init s) \<noteq> []"
  by (auto simp: group_inv_def Group_init_def errgroup_zero_def retained_Nil split: if_splits)

lemma group_inv_errgroup_Go:
  assumes "group_inv c rt fns s" "heap s \<noteq> []"
  shows "group_inv c rt (fns @ [fn]) (errgroup_Go (g (grp s)) (\<lambda>u. Do rt fn) s)"
proof -
  from assms have le: "length (completed s) \<le> length fns"
    by (auto simp: group_inv_def intro: length_le_bound)
  from assms have sub: "set (completed s) \<subseteq> {..<length fns}"
    by (simp add: group_inv_def)
  show ?thesis
    using assms le
    by (auto simp: group_inv_def errgroup_Go_def Suc_diff_le retained_launch [OF sub])
qed

lemma group_inv_Go: "group_inv c rt fns s \<Longrightarrow> group_inv c rt (fns @ [fn]) (Group_Go rt fn s)"
  using group_inv_init [of c rt fns s] group_inv_errgroup_Go [of c rt fns "Group_init s" fn]
  by (simp add: Group_Go_def Let_def)

lemma group_inv_finish:
  assumes "group_inv c rt fns s"
  shows "group_inv c rt fns (errgroup_Go_func1 k s)"
proof (cases "k < length (spawned s) \<and> k \<notin> set (completed s)")
  case False
  with assms show ?thesis
    by (auto simp: errgroup_Go_func1_def)
next
  case True
  from assms have sp: "spawned s = map (\<lambda>fn. (0, \<lambda>u. Do rt fn)) fns"
    by (simp add: group_inv_def)
  with True have k: "k < length fns" "k \<notin> set (completed s)"
    by simp_all
  from assms k have lt: "length (completed s) < length fns"
    by (auto simp: group_inv_def intro: length_less_bound)
  obtain e where e: "Do rt (fns ! k) = Return e"
    using Do_total by blast
  from k assms have hp: "heap s \<noteq> []"
    by (auto simp: group_inv_def split: if_splits)
  show ?thesis
    using assms k lt e hp sp
    by (auto simp: group_inv_def errgroup_Go_func1_def Let_def retained_finish [OF e])
qed

lemma group_inv_errgroup_Wait:
  "group_inv c rt fns s \<Longrightarrow> heap s \<noteq> [] \<Longrightarrow>
     group_inv c rt fns (snd (errgroup_Wait (g (grp s)) s))"
  by (auto simp: errgroup_Wait_def group_inv_def Let_def)

lemma group_inv_Wait: "group_inv c rt fns s \<Longrightarrow> group_inv c rt fns (snd (Group_Wait s))"
  using group_inv_init [of c rt fns s] group_inv_errgroup_Wait [of c rt fns "Group_init s"]
  by (simp add: Group_Wait_def Let_def)

lemma group_inv_step:
  "group_inv c rt fns s \<Longrightarrow> group_inv c rt (fns @ launches [a]) (step rt s a)"
  by (cases a) (auto simp: group_inv_Go group_inv_finish group_inv_Wait, auto simp: group_inv_def)

lemma launches_Cons: "launches (a # as) = launches [a] @ launches as"
  by (cases a) simp_all

lemma group_inv_run:
  "group_inv c rt fns s \<Longrightarrow> group_inv c rt (fns @ launches sched) (run rt sched s)"
proof (induction sched arbitrary: fns s)
  case Nil
  then show ?case by simp
next
  case (Cons a as)
  from Cons.prems have "group_inv c rt (fns @ launches [a]) (step rt s a)"
    by (rule group_inv_step)
  then have "group_inv c rt ((fns @ launches [a]) @ launches as) (run rt as (step rt s a))"
    by (rule Cons.IH)
  then show ?case
    by (simp add: launches_Cons [of a as])
qed

lemma group_inv_Wait_result:
  assumes "group_inv c rt fns s"
  shows "fst (Group_Wait s) =
     (if length (completed s) = length fns
      then Some (retained rt fns (completed s))
      else None)"
proof -
  from assms have le: "length (completed s) \<le> length fns"
    by (auto simp: group_inv_def intro: length_le_bound)
  show ?thesis
    using assms le
    by (auto simp: group_inv_def Group_Wait_def Group_init_def Let_def errgroup_Wait_def
          errgroup_zero_def retained_Nil split: if_splits)
qed

lemma group_inv_reachable:
  "s0 = zero_Group \<or> s0 = GroupWithContext \<Longrightarrow>
     \<exists>c. group_inv c rt (launches sched) (run rt sched s0)"
  using group_inv_run [OF group_inv_zero, of rt sched] group_inv_run [OF group_inv_ctx, of rt sched]
  by auto

lemmas group_defs =
  Group_Go_def Group_Wait_def Group_init_def errgroup_Go_def errgroup_Go_func1_def
  errgroup_Wait_def errgroup_zero_def zero_Group_def GroupWithContext_def Let_def

text \<open>
  Claim C5. Take any schedule of launches, completions and calls of \<^verbatim>\<open>Wait\<close> on a zero
  group or on a group with a context. The completed subtasks are launched ones, each
  completed once. A call of \<^verbatim>\<open>Wait\<close> then returns exactly when every launched subtask
  has completed, whatever the order of completion, and what it returns is the first
  non-nil error in the order of completion, or nil when there is none: the errors
  after the first one are dropped.
\<close>

theorem Group_Wait_first_error:
  assumes "s0 = zero_Group \<or> s0 = GroupWithContext"
  shows "distinct (completed (run rt sched s0))
    \<and> set (completed (run rt sched s0)) \<subseteq> {..<length (launches sched)}
    \<and> fst (Group_Wait (run rt sched s0)) =
        (if length (completed (run rt sched s0)) = length (launches sched)
         then Some (first_error
                      (map (\<lambda>k. Do rt (launches sched ! k)) (completed (run rt sched s0))))
         else None)"
proof -
  from assms obtain c where inv: "group_inv c rt (launches sched) (run rt sched s0)"
    using group_inv_reachable by blast
  then have "distinct (completed (run rt sched s0))"
    and "set (completed (run rt sched s0)) \<subseteq> {..<length (launches sched)}"
    by (simp_all add: group_inv_def)
  with group_inv_Wait_result [OF inv] show ?thesis
    by (simp add: retained_def)
qed

theorem Group_Wait_first_error_witness:
  "fst (Group_Wait (run rt_go121 sched_all_done zero_Group)) = Some (Some (Native ''second''))
   \<and> fst (Group_Wait (run rt_go121 sched_outstanding zero_Group)) = None
   \<and> fst (Group_Wait (run rt_go121 sched_ok GroupWithContext)) = Some None"
proof -
  have c1: "completed (run rt_go121 sched_all_done zero_Group) = [1, 2, 0]"
    by (simp add: sched_all_done_def group_defs f_ok_def f_err_def f_err2_def Do_def)
  have c2: "completed (run rt_go121 sched_outstanding zero_Group) = [1, 2]"
    by (simp add: sched_outstanding_def group_defs f_ok_def f_err_def f_err2_def Do_def)
  have c3: "completed (run rt_go121 sched_ok GroupWithContext) = [0]"
    by (simp add: sched_ok_def group_defs f_ok_def Do_def)
  have l: "launches sched_all_done = [f_err, f_err2, f_ok]"
    "launches sched_outstanding = [f_err, f_err2, f_ok]"
    "launches sched_ok = [f_ok]"
    by (simp_all add: sched_all_done_def sched_outstanding_def sched_ok_def)
  have d: "Do rt_go121 f_err2 = Return (Some (Native ''second''))"
    "Do rt_go121 f_err = Return (Some (Native ''boom''))"
    "Do rt_go121 f_ok = Return None"
    by (simp_all add: Do_def f_err2_def f_err_def f_ok_def)
  show ?thesis
    using Group_Wait_first_error [of zero_Group rt_go121 sched_all_done]
      Group_Wait_first_error [of zero_Group rt_go121 sched_outstanding]
      Group_Wait_first_error [of GroupWithContext rt_go121 sched_ok]
    by (simp add: c1 c2 c3 l d)
qed

lemma first_error_find:
  "find (\<lambda>k. f k \<noteq> Return None) ks = Some k \<Longrightarrow> f k = Return (Some x) \<Longrightarrow>
     (\<And>j. \<exists>e. f j = Return e) \<Longrightarrow> first_error (map f ks) = Some x"
proof (induction ks)
  case Nil
  then show ?case by simp
next
  case (Cons a ks)
  obtain e where e: "f a = Return e"
    using Cons.prems(3) by blast
  show ?case
  proof (cases e)
    case None
    with e Cons show ?thesis by simp
  next
    case (Some y)
    with e Cons.prems show ?thesis by simp
  qed
qed

text \<open>
  Claim C4, as amended. On a zero group or a group with a context, under any schedule,
  no panic of a subtask launched by \<^verbatim>\<open>Group.Go\<close> reaches the top of its goroutine, and
  \<^verbatim>\<open>Wait\<close> does not fault either. When all launched subtasks have completed and the first
  one to complete with a failure is a subtask that panicked with a payload \<open>p\<close> other
  than nil, \<^verbatim>\<open>Wait\<close> returns a \<^verbatim>\<open>PanicError\<close> whose accessor \<^verbatim>\<open>Panic\<close> returns \<open>p\<close> and
  which carries the stack trace captured at the interception.
\<close>

theorem Group_panic_to_Wait:
  assumes "s0 = zero_Group \<or> s0 = GroupWithContext"
  shows "\<not> faulted (run rt sched s0)
    \<and> \<not> faulted (snd (Group_Wait (run rt sched s0)))
    \<and> (length (completed (run rt sched s0)) = length (launches sched)
        \<and> find (\<lambda>k. Do rt (launches sched ! k) \<noteq> Return None) (completed (run rt sched s0)) = Some k
        \<and> (launches sched ! k) () = Panicked p \<and> p \<noteq> NilAny \<longrightarrow>
          fst (Group_Wait (run rt sched s0)) = Some (Some (Envelope (panicError rt ''Do'' p)))
          \<and> Panic (panicError rt ''Do'' p) = p
          \<and> StackTrace (pkgError (panicError rt ''Do'' p)) = callers rt ''Do'')"
proof -
  from assms obtain c where inv: "group_inv c rt (launches sched) (run rt sched s0)"
    using group_inv_reachable by blast
  have f1: "\<not> faulted (run rt sched s0)"
    using inv by (simp add: group_inv_def)
  have f2: "\<not> faulted (snd (Group_Wait (run rt sched s0)))"
    using group_inv_Wait [OF inv] by (simp add: group_inv_def)
  have f3: "fst (Group_Wait (run rt sched s0)) = Some (Some (Envelope (panicError rt ''Do'' p)))"
    if all: "length (completed (run rt sched s0)) = length (launches sched)"
      and fnd: "find (\<lambda>k. Do rt (launches sched ! k) \<noteq> Return None)
                  (completed (run rt sched s0)) = Some k"
      and pan: "(launches sched ! k) () = Panicked p" and nn: "p \<noteq> NilAny"
  proof -
    have "Do rt (launches sched ! k) = Return (Some (Envelope (panicError rt ''Do'' p)))"
      using pan nn by (rule Do_Panicked)
    with fnd have "first_error (map (\<lambda>k. Do rt (launches sched ! k)) (completed (run rt sched s0)))
        = Some (Envelope (panicError rt ''Do'' p))"
      by (rule first_error_find) (rule Do_total)
    with group_inv_Wait_result [OF inv] all show ?thesis
      by (simp add: retained_def)
  qed
  have f4: "Panic (panicError rt ''Do'' p) = p"
    "StackTrace (pkgError (panicError rt ''Do'' p)) = callers rt ''Do''"
    by (simp_all add: Panic_def panicError_def)
  from f1 f2 f3 f4 show ?thesis
    by blast
qed

theorem Group_panic_to_Wait_witness:
  "\<not> faulted (run rt_go121 sched_panic GroupWithContext)
   \<and> fst (Group_Wait (run rt_go121 sched_panic GroupWithContext)) =
       Some (Some (Envelope (panicError rt_go121 ''Do'' (Val 7))))
   \<and> Panic (panicError rt_go121 ''Do'' (Val 7)) = Val 7
   \<and> StackTrace (pkgError (panicError rt_go121 ''Do'' (Val 7))) = [''Do'']"
proof -
  have c1: "completed (run rt_go121 sched_panic GroupWithContext) = [0, 1, 2]"
    by (simp add: sched_panic_def group_defs f_ok_def f_err_def f_panic_def Do_def)
  have l: "launches sched_panic = [f_ok, f_panic, f_err]"
    by (simp add: sched_panic_def)
  have d: "Do rt_go121 f_ok = Return None"
    "Do rt_go121 f_panic \<noteq> Return None"
    "f_panic () = Panicked (Val 7)"
    by (simp_all add: Do_def f_ok_def f_panic_def)
  have s: "callers rt_go121 ''Do'' = [''Do'']"
    by (simp add: rt_go121_def)
  show ?thesis
    using Group_panic_to_Wait [of GroupWithContext rt_go121 sched_panic 1 "Val 7"]
    by (simp add: c1 l d s)
qed

text \<open>
  Claim C4 as stated, for every panicking subtask, fails twice. A subtask that panics
  after another subtask has failed is dropped like any later error: \<^verbatim>\<open>Wait\<close> returns the
  first error, which is no \<^verbatim>\<open>PanicError\<close>. And where \<^verbatim>\<open>recover()\<close> returns nil for
  \<^verbatim>\<open>panic(nil)\<close>, a subtask that panics with nil counts as a success: \<^verbatim>\<open>Wait\<close> returns
  nil.
\<close>

theorem Group_panic_not_returned_counterexample:
  "fst (Group_Wait (run rt_go121 [CallGo f_err, CallGo f_panic, Finish 0, Finish 1] zero_Group)) =
     Some (Some (Native ''boom''))
   \<and> fst (Group_Wait (run rt_panicnil [CallGo f_panic_nil, Finish 0] zero_Group)) = Some None"
  by (simp add: group_defs f_err_def f_panic_def f_panic_nil_def Do_def rt_panicnil_def)

lemma group_inv_heap_length:
  "group_inv c rt fns s \<Longrightarrow> length (heap s) = (if heap s = [] then 0 else 1)"
  by (auto simp: group_inv_def split: if_splits)

lemma heap_Group_init: "length (heap s) \<le> length (heap (Group_init s))"
  by (simp add: Group_init_def split: option.split)

lemma heap_errgroup_Go: "length (heap (errgroup_Go p f s)) = length (heap s)"
  by (simp add: errgroup_Go_def split: option.split)

lemma heap_errgroup_Go_func1: "length (heap (errgroup_Go_func1 k s)) = length (heap s)"
  by (simp add: errgroup_Go_func1_def Let_def split: prod.split outcome.split)

lemma heap_errgroup_Wait: "heap (snd (errgroup_Wait p s)) = heap s"
  by (simp add: errgroup_Wait_def Let_def split: option.split)

lemma heap_step_call:
  assumes "group_inv c rt fns s" "is_call a"
  shows "heap (step rt s a) \<noteq> []"
proof -
  from assms(1) have nf: "\<not> faulted s"
    by (simp add: group_inv_def)
  from assms(1) have i: "heap (Group_init s) \<noteq> []"
    using group_inv_init by blast
  show ?thesis
  proof (cases a)
    case (CallGo fn)
    have "length (heap (Group_Go rt fn s)) = length (heap (Group_init s))"
      by (simp add: Group_Go_def Let_def heap_errgroup_Go)
    with i nf CallGo show ?thesis
      by auto
  next
    case (Finish k)
    with assms(2) show ?thesis
      by simp
  next
    case CallWait
    have "heap (snd (Group_Wait s)) = heap (Group_init s)"
      by (simp add: Group_Wait_def Let_def heap_errgroup_Wait)
    with i nf CallWait show ?thesis
      by simp
  qed
qed

lemma heap_step_no_call: "\<not> is_call a \<Longrightarrow> length (heap (step rt s a)) = length (heap s)"
  by (cases a) (simp_all add: heap_errgroup_Go_func1)

lemma heap_run:
  "group_inv c rt fns s \<Longrightarrow>
     heap (run rt sched s) = [] \<longleftrightarrow> heap s = [] \<and> \<not> list_ex is_call sched"
proof (induction sched arbitrary: fns s)
  case Nil
  then show ?case by simp
next
  case (Cons a as)
  from Cons.prems have inv': "group_inv c rt (fns @ launches [a]) (step rt s a)"
    by (rule group_inv_step)
  have ih: "heap (run rt as (step rt s a)) = [] \<longleftrightarrow>
      heap (step rt s a) = [] \<and> \<not> list_ex is_call as"
    using inv' by (rule Cons.IH)
  show ?case
  proof (cases "is_call a")
    case True
    with Cons.prems have "heap (step rt s a) \<noteq> []"
      by (rule heap_step_call)
    with ih True show ?thesis
      by simp
  next
    case False
    then have "length (heap (step rt s a)) = length (heap s)"
      by (rule heap_step_no_call)
    then have "heap (step rt s a) = [] \<longleftrightarrow> heap s = []"
      by (metis length_0_conv)
    with ih False show ?thesis
      by simp
  qed
qed

lemma completed_step:
  assumes "group_inv c rt fns s"
  shows "completed (step rt s a) =
     (case a of
        Finish k \<Rightarrow>
          if k < length fns \<and> k \<notin> set (completed s) then completed s @ [k] else completed s
      | _ \<Rightarrow> completed s)"
proof (cases a)
  case (CallGo fn)
  then show ?thesis
    by (simp add: Group_Go_def Group_init_def errgroup_Go_def Let_def split: option.split)
next
  case CallWait
  then show ?thesis
    by (simp add: Group_Wait_def Group_init_def errgroup_Wait_def Let_def split: option.split)
next
  case (Finish k)
  from assms have nf: "\<not> faulted s" and sp: "spawned s = map (\<lambda>fn. (0, \<lambda>u. Do rt fn)) fns"
    by (simp_all add: group_inv_def)
  show ?thesis
  proof (cases "k < length fns \<and> k \<notin> set (completed s)")
    case False
    with Finish nf sp show ?thesis
      by (auto simp: errgroup_Go_func1_def)
  next
    case True
    from assms True have lt: "length (completed s) < length fns"
      by (auto simp: group_inv_def intro: length_less_bound)
    obtain e where e: "Do rt (fns ! k) = Return e"
      using Do_total by blast
    from True assms have hp: "heap s \<noteq> []"
      by (auto simp: group_inv_def split: if_splits)
    with assms have h: "heap s = [\<lparr>cancel = c, wg = length fns - length (completed s),
        errOnce = (retained rt fns (completed s) \<noteq> None),
        err = retained rt fns (completed s)\<rparr>]"
      by (simp add: group_inv_def)
    show ?thesis
      using Finish nf sp True lt e h
      by (simp add: errgroup_Go_func1_def Let_def)
  qed
qed

lemma completed_run_eq:
  "group_inv c rt fns s \<Longrightarrow> group_inv c' rt fns s' \<Longrightarrow> completed s = completed s' \<Longrightarrow>
     completed (run rt sched s) = completed (run rt sched s')"
proof (induction sched arbitrary: fns s s')
  case Nil
  then show ?case by simp
next
  case (Cons a as)
  have 1: "group_inv c rt (fns @ launches [a]) (step rt s a)"
    using Cons.prems(1) by (rule group_inv_step)
  have 2: "group_inv c' rt (fns @ launches [a]) (step rt s' a)"
    using Cons.prems(2) by (rule group_inv_step)
  have 3: "completed (step rt s a) = completed (step rt s' a)"
    using completed_step [OF Cons.prems(1), of a] completed_step [OF Cons.prems(2), of a]
      Cons.prems(3)
    by (simp split: act.split)
  show ?case
    using Cons.IH [OF 1 2 3] by simp
qed

text \<open>
  Claim C8. Under any schedule of calls of \<^verbatim>\<open>Group.Go\<close> and \<^verbatim>\<open>Group.Wait\<close> and completions
  of subtasks, in any interleaving of these steps, a zero group never faults; exactly
  one tracker is allocated, by the first call, and the group's pointer stays on it; no
  cancel function is ever called; and the subtasks complete and \<^verbatim>\<open>Wait\<close> answers exactly
  as for a group made by \<^verbatim>\<open>GroupWithContext\<close> under the same schedule. Each call of
  \<^verbatim>\<open>init\<close> is one step here, which is what \<^verbatim>\<open>sync.Once\<close> provides to concurrent callers.
\<close>

theorem zero_Group_valid:
  "\<not> faulted (run rt sched zero_Group)
   \<and> \<not> faulted (snd (Group_Wait (run rt sched zero_Group)))
   \<and> length (heap (run rt sched zero_Group)) = (if list_ex is_call sched then 1 else 0)
   \<and> g (grp (run rt sched zero_Group)) = (if list_ex is_call sched then Some 0 else None)
   \<and> length (heap (snd (Group_Wait (run rt sched zero_Group)))) = 1
   \<and> cancels (run rt sched zero_Group) = 0
   \<and> cancels (snd (Group_Wait (run rt sched zero_Group))) = 0
   \<and> completed (run rt sched zero_Group) = completed (run rt sched GroupWithContext)
   \<and> fst (Group_Wait (run rt sched zero_Group)) =
       fst (Group_Wait (run rt sched GroupWithContext))"
proof -
  let ?s = "run rt sched zero_Group"
  let ?t = "run rt sched GroupWithContext"
  have z: "group_inv False rt (launches sched) ?s"
    using group_inv_run [OF group_inv_zero, of rt sched] by simp
  have x: "group_inv True rt (launches sched) ?t"
    using group_inv_run [OF group_inv_ctx, of rt sched] by simp
  have w: "group_inv False rt (launches sched) (snd (Group_Wait ?s))"
    using z by (rule group_inv_Wait)
  have hw: "heap (snd (Group_Wait ?s)) \<noteq> []"
    using heap_step_call [OF z, where a = CallWait] z by (simp add: group_inv_def)
  have e: "heap ?s = [] \<longleftrightarrow> \<not> list_ex is_call sched"
    using heap_run [OF group_inv_zero, of rt sched] by (simp add: zero_Group_def)
  have c: "completed ?s = completed ?t"
    by (rule completed_run_eq [OF group_inv_zero group_inv_ctx])
      (simp add: zero_Group_def GroupWithContext_def)
  have 1: "\<not> faulted ?s" "cancels ?s = 0"
    using z by (simp_all add: group_inv_def)
  have 2: "\<not> faulted (snd (Group_Wait ?s))" "cancels (snd (Group_Wait ?s)) = 0"
    using w by (simp_all add: group_inv_def)
  have 3: "length (heap ?s) = (if list_ex is_call sched then 1 else 0)"
    using group_inv_heap_length [OF z] e by simp
  have 4: "g (grp ?s) = (if list_ex is_call sched then Some 0 else None)"
    using z e by (simp add: group_inv_def split: if_splits)
  have 5: "length (heap (snd (Group_Wait ?s))) = 1"
    using group_inv_heap_length [OF w] hw by simp
  have 6: "fst (Group_Wait ?s) = fst (Group_Wait ?t)"
    using group_inv_Wait_result [OF z] group_inv_Wait_result [OF x] c by simp
  from 1 2 3 4 5 6 c show ?thesis
    by simp
qed

theorem zero_Group_valid_witness:
  "\<not> faulted (run rt_go121 sched_calls zero_Group)
   \<and> length (heap (run rt_go121 sched_calls zero_Group)) = 1
   \<and> g (grp (run rt_go121 sched_calls zero_Group)) = Some 0
   \<and> cancels (run rt_go121 sched_calls zero_Group) = 0
   \<and> completed (run rt_go121 sched_calls GroupWithContext) = [1, 0]
   \<and> fst (Group_Wait (run rt_go121 sched_calls GroupWithContext)) =
       Some (Some (Envelope (panicError rt_go121 ''Do'' (Val 7))))
   \<and> length (heap (run rt_go121 [] zero_Group :: (string, nat) sys)) = 0"
proof -
  have c: "list_ex is_call sched_calls"
    by (simp add: sched_calls_def)
  have r: "completed (run rt_go121 sched_calls zero_Group) = [1, 0]"
    by (simp add: sched_calls_def group_defs f_err_def f_panic_def Do_def)
  have v: "fst (Group_Wait (run rt_go121 sched_calls zero_Group)) =
       Some (Some (Envelope (panicError rt_go121 ''Do'' (Val 7))))"
    by (simp add: sched_calls_def group_defs f_err_def f_panic_def Do_def)
  show ?thesis
    using zero_Group_valid [of rt_go121 sched_calls]
      zero_Group_valid [of rt_go121 "[] :: (string, nat) act list"] c r v
    by simp
qed

end
